theory Spec2Isabelle
  imports Main
begin

section \<open>Python values and errors\<close>

text \<open>
  The program \<^verbatim>\<open>diagram.py\<close> reads eight JSON documents and builds a directed graph
  with networkx. The documents are modelled as records whose fields are all optional
  (a JSON object may lack any key): a field read with \<^verbatim>\<open>d[k]\<close> raises
  \<^verbatim>\<open>KeyError\<close> when the key is absent, a field read with \<^verbatim>\<open>d.get(k, default)\<close>
  yields the default. A key that is present holds a value of the type the program
  expects (a string, a list, an object).
\<close>

datatype py_error = KeyError string | IndexError

text \<open>
  \<^verbatim>\<open>s.split(c)\<close> for a one-character separator: the text is cut at every \<open>c\<close>;
  the result is never empty, \<^verbatim>\<open>"".split(c) == [""]\<close>. \<open>cur\<close> is the piece being read.
\<close>

fun split_from :: "char \<Rightarrow> string \<Rightarrow> string \<Rightarrow> string list" where
  "split_from c cur [] = [cur]"
| "split_from c cur (x # xs) =
     (if x = c then cur # split_from c [] xs else split_from c (cur @ [x]) xs)"

definition split_on :: "char \<Rightarrow> string \<Rightarrow> string list" where
  "split_on c s = split_from c [] s"

section \<open>The inventory documents\<close>

record vpc =
  vpc_VpcId :: "string option"
  vpc_CidrBlock :: "string option"

record tag =
  tag_Value :: "string option"

record subnet =
  sn_SubnetId :: "string option"
  sn_VpcId :: "string option"
  sn_Tags :: "tag list option"

record db_subnet =
  dsn_SubnetIdentifier :: "string option"

record db_subnet_group =
  dsg_Subnets :: "db_subnet list option"

record db_instance =
  db_DBInstanceIdentifier :: "string option"
  db_DBSubnetGroup :: "db_subnet_group option"

record load_balancer =
  lb_LoadBalancerArn :: "string option"
  lb_LoadBalancerName :: "string option"
  lb_VpcId :: "string option"
  lb_TargetGroupArns :: "string list option"

record binding =
  b_loadBalancerName :: "string option"
  b_targetGroupArn :: "string option"

record service =
  svc_serviceName :: "string option"
  svc_clusterArn :: "string option"
  svc_loadBalancers :: "binding list option"

record target_group =
  tg_TargetGroupArn :: "string option"
  tg_VpcId :: "string option"

text \<open>An EC2 reservation: its instances are only counted.\<close>

record reservation =
  r_Instances :: "unit list option"

text \<open>
  The parsed documents, one field per top-level key that \<^verbatim>\<open>main\<close> reads
  (\<^verbatim>\<open>ecs-clusters.json\<close> is loaded and never read).
\<close>

record inventory =
  inv_Vpcs :: "vpc list option"
  inv_Subnets :: "subnet list option"
  inv_Reservations :: "reservation list option"
  inv_DBInstances :: "db_instance list option"
  inv_LoadBalancers :: "load_balancer list option"
  inv_services :: "service list option"
  inv_TargetGroups :: "target_group list option"

section \<open>The directed graph\<close>

text \<open>
  A networkx \<^verbatim>\<open>DiGraph\<close>: the node table is an insertion-ordered dictionary from
  node id to the node's attribute dictionary, the edges are a set of pairs. The program
  only ever sets the attributes \<^verbatim>\<open>label\<close>, \<^verbatim>\<open>color\<close> and \<^verbatim>\<open>layer\<close>, all three at once;
  a node that \<^verbatim>\<open>add_edge\<close> creates has none of them.
\<close>

record attrs =
  a_label :: "string option"
  a_color :: "string option"
  a_layer :: "nat option"

record graph =
  g_nodes :: "(string \<times> attrs) list"
  g_edges :: "(string \<times> string) list"

definition empty_graph :: graph where
  "empty_graph = \<lparr>g_nodes = [], g_edges = []\<rparr>"

definition no_attrs :: attrs where
  "no_attrs = \<lparr>a_label = None, a_color = None, a_layer = None\<rparr>"

text \<open>Dictionary assignment: an existing key keeps its place, a new key goes last.\<close>

fun upsert :: "string \<Rightarrow> attrs \<Rightarrow> (string \<times> attrs) list \<Rightarrow> (string \<times> attrs) list" where
  "upsert k v [] = [(k, v)]"
| "upsert k v (p # ps) = (if fst p = k then (k, v) # ps else p # upsert k v ps)"

definition node_ids :: "graph \<Rightarrow> string list" where
  "node_ids G = map fst (g_nodes G)"

definition has_node :: "graph \<Rightarrow> string \<Rightarrow> bool" where
  "has_node G n = (n \<in> set (node_ids G))"

definition has_edge :: "graph \<Rightarrow> string \<Rightarrow> string \<Rightarrow> bool" where
  "has_edge G u v = ((u, v) \<in> set (g_edges G))"

text \<open>\<^verbatim>\<open>G.add_node(n, label=l, color=c, layer=y)\<close>: creates the node or overwrites its attributes.\<close>

definition add_node :: "graph \<Rightarrow> string \<Rightarrow> string \<Rightarrow> string \<Rightarrow> nat \<Rightarrow> graph" where
  "add_node G n l c y =
     G\<lparr>g_nodes := upsert n \<lparr>a_label = Some l, a_color = Some c, a_layer = Some y\<rparr> (g_nodes G)\<rparr>"

text \<open>What \<^verbatim>\<open>add_edge\<close> does to an endpoint: a missing node is created with no attributes.\<close>

definition ensure_node :: "graph \<Rightarrow> string \<Rightarrow> graph" where
  "ensure_node G n = (if has_node G n then G else G\<lparr>g_nodes := g_nodes G @ [(n, no_attrs)]\<rparr>)"

text \<open>\<^verbatim>\<open>G.add_edge(u, v)\<close>: both endpoints become nodes; an edge that exists is not added again.\<close>

definition add_edge :: "graph \<Rightarrow> string \<Rightarrow> string \<Rightarrow> graph" where
  "add_edge G u v =
     (let G1 = ensure_node (ensure_node G u) v
      in if has_edge G1 u v then G1 else G1\<lparr>g_edges := g_edges G1 @ [(u, v)]\<rparr>)"

definition predecessors :: "graph \<Rightarrow> string \<Rightarrow> string list" where
  "predecessors G n = map fst (filter (\<lambda>e. snd e = n) (g_edges G))"

definition in_degree :: "graph \<Rightarrow> string \<Rightarrow> nat" where
  "in_degree G n = length (predecessors G n)"

section \<open>The graph builder\<close>

subsection \<open>Lookup tables (lines 35-41)\<close>

fun target_to_lb_inner :: "string option \<Rightarrow> (string \<rightharpoonup> string) \<Rightarrow> string list \<Rightarrow> py_error + (string \<rightharpoonup> string)" where
  "target_to_lb_inner arn m [] = Inr m"
| "target_to_lb_inner arn m (t # ts) =
     (case arn of
        None \<Rightarrow> Inl (KeyError ''LoadBalancerArn'')
      | Some a \<Rightarrow> target_to_lb_inner arn (m(t \<mapsto> a)) ts)"

fun target_to_lb_loop :: "(string \<rightharpoonup> string) \<Rightarrow> load_balancer list \<Rightarrow> py_error + (string \<rightharpoonup> string)" where
  "target_to_lb_loop m [] = Inr m"
| "target_to_lb_loop m (lb # lbs) =
     (case target_to_lb_inner (lb_LoadBalancerArn lb) m
             (case lb_TargetGroupArns lb of None \<Rightarrow> [] | Some ts \<Rightarrow> ts) of
        Inl e \<Rightarrow> Inl e
      | Inr m' \<Rightarrow> target_to_lb_loop m' lbs)"

fun tg_to_vpc_loop :: "(string \<rightharpoonup> string) \<Rightarrow> target_group list \<Rightarrow> py_error + (string \<rightharpoonup> string)" where
  "tg_to_vpc_loop m [] = Inr m"
| "tg_to_vpc_loop m (tg # tgs) =
     (case tg_TargetGroupArn tg of
        None \<Rightarrow> Inl (KeyError ''TargetGroupArn'')
      | Some a \<Rightarrow>
          (case tg_VpcId tg of
             None \<Rightarrow> Inl (KeyError ''VpcId'')
           | Some v \<Rightarrow> tg_to_vpc_loop (m(a \<mapsto> v)) tgs))"

subsection \<open>Used-name detection (lines 43-53)\<close>

text \<open>\<^verbatim>\<open>lb.get("targetGroupArn", "")\<close>.\<close>

definition binding_tg_arn :: "binding \<Rightarrow> string" where
  "binding_tg_arn lb = (case b_targetGroupArn lb of None \<Rightarrow> [] | Some a \<Rightarrow> a)"

text \<open>The \<^verbatim>\<open>elif tg_arn:\<close> branch (lines 50-53).\<close>

definition used_from_arn :: "string set \<Rightarrow> string \<Rightarrow> string set" where
  "used_from_arn used tg_arn =
     (if tg_arn \<noteq> [] then
        (let parts = split_on CHR ''/'' (last (split_on CHR '':'' tg_arn))
         in if length parts \<ge> 2 then insert (parts ! (length parts - 2)) used else used)
      else used)"

text \<open>The body of the inner loop, for one load-balancer binding of a service.\<close>

definition used_lb_names_binding :: "string set \<Rightarrow> binding \<Rightarrow> string set" where
  "used_lb_names_binding used lb =
     (let tg_arn = binding_tg_arn lb
      in case b_loadBalancerName lb of
           None \<Rightarrow> used_from_arn used tg_arn
         | Some lb_name \<Rightarrow>
             if lb_name \<noteq> [] then insert lb_name used else used_from_arn used tg_arn)"

definition used_lb_names_service :: "string set \<Rightarrow> service \<Rightarrow> string set" where
  "used_lb_names_service used svc =
     foldl used_lb_names_binding used
       (case svc_loadBalancers svc of None \<Rightarrow> [] | Some bs \<Rightarrow> bs)"

definition used_lb_names :: "inventory \<Rightarrow> string set" where
  "used_lb_names inp =
     foldl used_lb_names_service {}
       (case inv_services inp of None \<Rightarrow> [] | Some ss \<Rightarrow> ss)"

subsection \<open>Error propagation\<close>

definition py_bind :: "py_error + 'a \<Rightarrow> ('a \<Rightarrow> py_error + 'b) \<Rightarrow> py_error + 'b" where
  "py_bind r f = (case r of Inl e \<Rightarrow> Inl e | Inr x \<Rightarrow> f x)"

text \<open>\<^verbatim>\<open>d[k]\<close> on a JSON object.\<close>

definition require :: "string \<Rightarrow> 'a option \<Rightarrow> py_error + 'a" where
  "require k v = (case v of None \<Rightarrow> Inl (KeyError k) | Some x \<Rightarrow> Inr x)"

text \<open>\<^verbatim>\<open>d.get(k, [])\<close> on a JSON object.\<close>

definition get_list :: "'a list option \<Rightarrow> 'a list" where
  "get_list v = (case v of None \<Rightarrow> [] | Some xs \<Rightarrow> xs)"

definition nl :: string where
  "nl = [CHR 0x0A]"

subsection \<open>Step 1: containers (lines 57-59)\<close>

definition vpc_label :: "vpc \<Rightarrow> string" where
  "vpc_label v = ''VPC'' @ nl @ (case vpc_CidrBlock v of None \<Rightarrow> ''unknown'' | Some c \<Rightarrow> c)"

fun vpcs_loop :: "graph \<Rightarrow> vpc list \<Rightarrow> py_error + graph" where
  "vpcs_loop G [] = Inr G"
| "vpcs_loop G (v # vs) =
     (let label = vpc_label v
      in case vpc_VpcId v of
           None \<Rightarrow> Inl (KeyError ''VpcId'')
         | Some vid \<Rightarrow> vpcs_loop (add_node G vid label ''skyblue'' 2) vs)"

subsection \<open>Step 2: subnets (lines 61-64)\<close>

text \<open>
  \<^verbatim>\<open>s.get("Tags", [{}])[0].get("Value", s["SubnetId"])\<close>: the default list holds one
  empty object; indexing an empty list raises; the default of the inner \<^verbatim>\<open>get\<close> is
  evaluated before the call.
\<close>

definition subnet_name :: "subnet \<Rightarrow> py_error + string" where
  "subnet_name s =
     (case (case sn_Tags s of None \<Rightarrow> [\<lparr>tag_Value = None\<rparr>] | Some ts \<Rightarrow> ts) of
        [] \<Rightarrow> Inl IndexError
      | t # _ \<Rightarrow>
          (case sn_SubnetId s of
             None \<Rightarrow> Inl (KeyError ''SubnetId'')
           | Some sid \<Rightarrow> Inr (case tag_Value t of None \<Rightarrow> sid | Some v \<Rightarrow> v)))"

fun subnets_loop :: "graph \<Rightarrow> subnet list \<Rightarrow> py_error + graph" where
  "subnets_loop G [] = Inr G"
| "subnets_loop G (s # ss) =
     (case subnet_name s of
        Inl e \<Rightarrow> Inl e
      | Inr name \<Rightarrow>
          (case sn_SubnetId s of
             None \<Rightarrow> Inl (KeyError ''SubnetId'')
           | Some sid \<Rightarrow>
               (let G1 = add_node G sid (''Subnet'' @ nl @ name) ''lightgreen'' 1
                in case sn_VpcId s of
                     None \<Rightarrow> Inl (KeyError ''VpcId'')
                   | Some vid \<Rightarrow> subnets_loop (add_edge G1 vid sid) ss)))"

subsection \<open>Step 3: databases (lines 66-71)\<close>

text \<open>\<^verbatim>\<open>db.get("DBSubnetGroup", {}).get("Subnets", [])\<close>.\<close>

definition db_subnets :: "db_instance \<Rightarrow> db_subnet list" where
  "db_subnets db =
     (case db_DBSubnetGroup db of None \<Rightarrow> [] | Some g \<Rightarrow> get_list (dsg_Subnets g))"

text \<open>Lines 70-71, for one entry of the subnet list.\<close>

definition db_subnet_step :: "string \<Rightarrow> graph \<Rightarrow> db_subnet \<Rightarrow> graph" where
  "db_subnet_step db_id G sn =
     (case dsn_SubnetIdentifier sn of
        None \<Rightarrow> G
      | Some sn_id \<Rightarrow> if sn_id \<noteq> [] then add_edge G sn_id db_id else G)"

text \<open>Lines 68-71, for one database whose identifier has been read.\<close>

definition db_step :: "graph \<Rightarrow> string \<Rightarrow> db_subnet list \<Rightarrow> graph" where
  "db_step G db_id sns = foldl (db_subnet_step db_id) (add_node G db_id ''RDS'' ''plum'' 0) sns"

fun dbs_loop :: "graph \<Rightarrow> db_instance list \<Rightarrow> py_error + graph" where
  "dbs_loop G [] = Inr G"
| "dbs_loop G (db # dbs) =
     (case db_DBInstanceIdentifier db of
        None \<Rightarrow> Inl (KeyError ''DBInstanceIdentifier'')
      | Some db_id \<Rightarrow> dbs_loop (db_step G db_id (db_subnets db)) dbs)"

subsection \<open>Step 6: load-balancer nodes (lines 73-78)\<close>

definition lb_node_id :: "string \<Rightarrow> string" where
  "lb_node_id name = ''LB:'' @ name"

fun lbs_loop :: "string set \<Rightarrow> graph \<Rightarrow> load_balancer list \<Rightarrow> py_error + graph" where
  "lbs_loop used G [] = Inr G"
| "lbs_loop used G (lb # lbs) =
     (case lb_LoadBalancerName lb of
        None \<Rightarrow> Inl (KeyError ''LoadBalancerName'')
      | Some name \<Rightarrow>
          if name \<in> used then
            (let lb_id = lb_node_id name;
                 G1 = add_node G lb_id ''Load Balancer'' ''lightslategray'' 3
             in case lb_VpcId lb of
                  None \<Rightarrow> Inl (KeyError ''VpcId'')
                | Some vid \<Rightarrow> lbs_loop used (add_edge G1 vid lb_id) lbs)
          else lbs_loop used G lbs)"

subsection \<open>Step 7: clusters and services (lines 80-103)\<close>

definition cluster_node_id :: "string \<Rightarrow> string" where
  "cluster_node_id cluster_name = ''CLUSTER:'' @ cluster_name"

definition service_node_id :: "string \<Rightarrow> string" where
  "service_node_id svc_name = ''SVC:'' @ svc_name"

text \<open>\<^verbatim>\<open>parts[-2]\<close>.\<close>

definition index_minus2 :: "string list \<Rightarrow> py_error + string" where
  "index_minus2 parts =
     (if length parts \<ge> 2 then Inr (parts ! (length parts - 2)) else Inl IndexError)"

text \<open>
  Line 93, \<^verbatim>\<open>lb.get("loadBalancerName") or tg_arn.split("/")[-2] if tg_arn else None\<close>.
  Python reads it as \<^verbatim>\<open>(A or B) if tg_arn else None\<close>: the conditional expression binds
  weaker than \<^verbatim>\<open>or\<close>. \<^verbatim>\<open>A or B\<close> evaluates \<^verbatim>\<open>B\<close> only when \<^verbatim>\<open>A\<close> is \<^verbatim>\<open>None\<close> or empty.
\<close>

definition resolve_lb_name :: "binding \<Rightarrow> py_error + string option" where
  "resolve_lb_name lb =
     (let tg_arn = binding_tg_arn lb
      in if tg_arn \<noteq> [] then
           (case b_loadBalancerName lb of
              None \<Rightarrow> map_sum id Some (index_minus2 (split_on CHR ''/'' tg_arn))
            | Some n \<Rightarrow>
                if n \<noteq> [] then Inr (Some n)
                else map_sum id Some (index_minus2 (split_on CHR ''/'' tg_arn)))
         else Inr None)"

text \<open>Lines 95-99, given the resolved name.\<close>

definition lb_edge_step :: "string \<Rightarrow> graph \<Rightarrow> string option \<Rightarrow> graph" where
  "lb_edge_step service_id G lb_name =
     (case lb_name of
        None \<Rightarrow> G
      | Some n \<Rightarrow>
          if n \<noteq> [] then
            (let lb_id = lb_node_id n;
                 G1 = (if \<not> has_node G lb_id
                       then add_node G lb_id ''Load Balancer'' ''lightslategray'' 3 else G)
             in add_edge G1 service_id lb_id)
          else G)"

text \<open>Lines 102-103: the service is anchored to the container of a known target group.\<close>

definition tg_edge_step :: "(string \<rightharpoonup> string) \<Rightarrow> string \<Rightarrow> graph \<Rightarrow> string \<Rightarrow> graph" where
  "tg_edge_step tg_to_vpc service_id G tg_arn =
     (if tg_arn \<noteq> [] then
        (case tg_to_vpc tg_arn of None \<Rightarrow> G | Some v \<Rightarrow> add_edge G v service_id)
      else G)"

text \<open>Lines 92-103, for one binding.\<close>

definition binding_step :: "(string \<rightharpoonup> string) \<Rightarrow> string \<Rightarrow> graph \<Rightarrow> binding \<Rightarrow> py_error + graph" where
  "binding_step tg_to_vpc service_id G lb =
     py_bind (resolve_lb_name lb) (\<lambda>lb_name.
       Inr (tg_edge_step tg_to_vpc service_id (lb_edge_step service_id G lb_name)
              (binding_tg_arn lb)))"

fun bindings_loop :: "(string \<rightharpoonup> string) \<Rightarrow> string \<Rightarrow> graph \<Rightarrow> binding list \<Rightarrow> py_error + graph" where
  "bindings_loop tg_to_vpc service_id G [] = Inr G"
| "bindings_loop tg_to_vpc service_id G (lb # lbs) =
     (case binding_step tg_to_vpc service_id G lb of
        Inl e \<Rightarrow> Inl e
      | Inr G' \<Rightarrow> bindings_loop tg_to_vpc service_id G' lbs)"

text \<open>Lines 87-89: the cluster node, created or reused, the service node and their edge.\<close>

definition service_step :: "graph \<Rightarrow> string \<Rightarrow> string \<Rightarrow> string \<Rightarrow> graph" where
  "service_step G cluster_id service_id svc_name =
     (let G1 = add_node G cluster_id ''ECS Cluster'' ''lightyellow'' 3;
          G2 = add_node G1 service_id (''ECS Service'' @ nl @ svc_name) ''gold'' 4
      in add_edge G2 cluster_id service_id)"

fun services_loop :: "(string \<rightharpoonup> string) \<Rightarrow> graph \<Rightarrow> service list \<Rightarrow> py_error + graph" where
  "services_loop tg_to_vpc G [] = Inr G"
| "services_loop tg_to_vpc G (svc # svcs) =
     (case svc_serviceName svc of
        None \<Rightarrow> Inl (KeyError ''serviceName'')
      | Some svc_name \<Rightarrow>
          (case svc_clusterArn svc of
             None \<Rightarrow> Inl (KeyError ''clusterArn'')
           | Some cluster_arn \<Rightarrow>
               (let cluster_name = last (split_on CHR ''/'' cluster_arn);
                    cluster_id = cluster_node_id cluster_name;
                    service_id = service_node_id svc_name
                in case bindings_loop tg_to_vpc service_id
                          (service_step G cluster_id service_id svc_name)
                          (get_list (svc_loadBalancers svc)) of
                     Inl e \<Rightarrow> Inl e
                   | Inr G4 \<Rightarrow> services_loop tg_to_vpc G4 svcs)))"

subsection \<open>Steps 1 to 7 in program order (lines 35-103)\<close>

definition build_steps :: "inventory \<Rightarrow> py_error + graph" where
  "build_steps inp =
     py_bind (target_to_lb_loop Map.empty (get_list (inv_LoadBalancers inp))) (\<lambda>target_to_lb.
     py_bind (tg_to_vpc_loop Map.empty (get_list (inv_TargetGroups inp))) (\<lambda>tg_to_vpc.
     py_bind (require ''Vpcs'' (inv_Vpcs inp)) (\<lambda>vpcs.
     py_bind (vpcs_loop empty_graph vpcs) (\<lambda>G1.
     py_bind (require ''Subnets'' (inv_Subnets inp)) (\<lambda>subs.
     py_bind (subnets_loop G1 subs) (\<lambda>G2.
     py_bind (require ''DBInstances'' (inv_DBInstances inp)) (\<lambda>rds.
     py_bind (dbs_loop G2 rds) (\<lambda>G3.
     py_bind (require ''LoadBalancers'' (inv_LoadBalancers inp)) (\<lambda>lbs.
     py_bind (lbs_loop (used_lb_names inp) G3 lbs) (\<lambda>G6.
     py_bind (require ''services'' (inv_services inp)) (\<lambda>svcs.
     services_loop tg_to_vpc G6 svcs)))))))))))"

subsection \<open>Step 8: unattached detection (lines 105-114)\<close>

definition always_contained :: "string set" where
  "always_contained = {''EC2'', ''RDS'', ''ECS Cluster'', ''ECS Task''}"

text \<open>
  The list comprehension over the node table of \<open>G\<close>. \<^verbatim>\<open>and\<close> is short-circuit:
  the label is read, and raises when the node has none, only at in-degree zero.
\<close>

fun unattached_loop :: "graph \<Rightarrow> (string \<times> attrs) list \<Rightarrow> py_error + string list" where
  "unattached_loop G [] = Inr []"
| "unattached_loop G (p # ps) =
     (if in_degree G (fst p) = 0 then
        (case a_label (snd p) of
           None \<Rightarrow> Inl (KeyError ''label'')
         | Some l \<Rightarrow>
             (case unattached_loop G ps of
                Inl e \<Rightarrow> Inl e
              | Inr ns \<Rightarrow> Inr (if l \<in> always_contained then fst p # ns else ns)))
      else unattached_loop G ps)"

definition unattached_nodes :: "graph \<Rightarrow> py_error + string list" where
  "unattached_nodes G = unattached_loop G (g_nodes G)"

definition NO_VPC :: string where
  "NO_VPC = ''NO_VPC''"

text \<open>Lines 111-114.\<close>

definition sentinel_pass :: "graph \<Rightarrow> string list \<Rightarrow> graph" where
  "sentinel_pass G unattached =
     (if unattached \<noteq> [] then
        foldl (\<lambda>g n. add_edge g NO_VPC n) (add_node G NO_VPC ''No VPC'' ''lightgray'' 0) unattached
      else G)"

text \<open>The builder: the final graph and the unattached list.\<close>

definition builder :: "inventory \<Rightarrow> py_error + graph \<times> string list" where
  "builder inp =
     py_bind (build_steps inp) (\<lambda>G7.
     py_bind (unattached_nodes G7) (\<lambda>unattached.
     Inr (sentinel_pass G7 unattached, unattached)))"

section \<open>The renderer (lines 116-176)\<close>

text \<open>
  Of a diagram the model keeps the file name, the title and the legend. The layout and
  the drawing calls belong to networkx and matplotlib and decide none of the three.
\<close>

definition digit_char :: "nat \<Rightarrow> char" where
  "digit_char d = char_of (48 + d)"

text \<open>The decimal text of a count, as an f-string prints it.\<close>

fun str_nat :: "nat \<Rightarrow> string" where
  "str_nat n = (if n < 10 then [digit_char n] else str_nat (n div 10) @ [digit_char (n mod 10)])"

declare str_nat.simps [simp del]

text \<open>\<^verbatim>\<open>sum(len(r["Instances"]) for r in ec2s["Reservations"])\<close>.\<close>

fun ec2_count :: "reservation list \<Rightarrow> py_error + nat" where
  "ec2_count [] = Inr 0"
| "ec2_count (r # rs) =
     (case r_Instances r of
        None \<Rightarrow> Inl (KeyError ''Instances'')
      | Some is \<Rightarrow>
          (case ec2_count rs of Inl e \<Rightarrow> Inl e | Inr n \<Rightarrow> Inr (length is + n)))"

text \<open>A legend patch: its colour and its label \<^verbatim>\<open>f"{name} ({count})"\<close>.\<close>

definition patch :: "string \<Rightarrow> string \<Rightarrow> nat \<Rightarrow> string \<times> string" where
  "patch color name n = (color, name @ '' ('' @ str_nat n @ '')'')"

text \<open>
  Lines 139-163. \<open>G\<close> is the variable of \<^verbatim>\<open>main\<close> that the nested function closes
  over: the graph as it is when the diagrams are drawn, after step 8.
\<close>

definition legend_handles :: "inventory \<Rightarrow> graph \<Rightarrow> py_error + (string \<times> string) list" where
  "legend_handles inp G =
     py_bind (require ''Vpcs'' (inv_Vpcs inp)) (\<lambda>vpcs.
     py_bind (require ''Subnets'' (inv_Subnets inp)) (\<lambda>subs.
     py_bind (require ''Reservations'' (inv_Reservations inp)) (\<lambda>reservations.
     py_bind (ec2_count reservations) (\<lambda>ec2.
     py_bind (require ''DBInstances'' (inv_DBInstances inp)) (\<lambda>rds.
     py_bind (unattached_nodes G) (\<lambda>unattached_now.
     py_bind (require ''services'' (inv_services inp)) (\<lambda>svcs.
     Inr ([patch ''skyblue'' ''VPCs'' (length vpcs),
           patch ''lightgreen'' ''Subnets'' (length subs),
           patch ''orange'' ''EC2 instances'' ec2,
           patch ''plum'' ''RDS instances'' (length rds),
           patch ''lightslategray'' ''Load Balancers'' (card (used_lb_names inp)),
           patch ''gold'' ''ECS Services'' (length svcs)]
          @ (if length unattached_now \<noteq> 0
             then [patch ''lightgray'' ''Unattached'' (length unattached_now)]
             else [])))))))))"

record diagram =
  d_file :: string
  d_title :: string
  d_legend :: "(string \<times> string) list"

definition draw_vpc_topology :: "inventory \<Rightarrow> graph \<Rightarrow> string \<Rightarrow> string option \<Rightarrow> py_error + diagram" where
  "draw_vpc_topology inp G vpc_id title =
     py_bind (legend_handles inp G) (\<lambda>legend.
     Inr \<lparr>d_file = vpc_id @ ''_topology.png'',
          d_title = (case title of
                       None \<Rightarrow> ''Topology for '' @ vpc_id
                     | Some t \<Rightarrow> if t \<noteq> [] then t else ''Topology for '' @ vpc_id),
          d_legend = legend\<rparr>)"

text \<open>Lines 169-172.\<close>

fun vpc_diagrams :: "inventory \<Rightarrow> graph \<Rightarrow> vpc list \<Rightarrow> py_error + diagram list" where
  "vpc_diagrams inp G [] = Inr []"
| "vpc_diagrams inp G (v # vs) =
     (case vpc_VpcId v of
        None \<Rightarrow> Inl (KeyError ''VpcId'')
      | Some vpc_id \<Rightarrow>
          (case draw_vpc_topology inp G vpc_id None of
             Inl e \<Rightarrow> Inl e
           | Inr d \<Rightarrow>
               (case vpc_diagrams inp G vs of Inl e \<Rightarrow> Inl e | Inr ds \<Rightarrow> Inr (d # ds))))"

text \<open>The title of the orphan diagram; the dash is U+2014, three bytes in UTF-8.\<close>

definition orphan_title :: string where
  "orphan_title = ''Topology '' @ [CHR 0xE2, CHR 0x80, CHR 0x94] @ '' Orphaned Resources''"

record run =
  run_graph :: graph
  run_unattached :: "string list"
  run_diagrams :: "diagram list"
  run_orphan :: "diagram option"

text \<open>\<^verbatim>\<open>main\<close> after the documents are loaded (lines 35-176).\<close>

definition main :: "inventory \<Rightarrow> py_error + run" where
  "main inp =
     py_bind (builder inp) (\<lambda>(G, unattached).
     py_bind (require ''Vpcs'' (inv_Vpcs inp)) (\<lambda>vpcs.
     py_bind (vpc_diagrams inp G vpcs) (\<lambda>ds.
     py_bind (if unattached \<noteq> []
              then map_sum id Some (draw_vpc_topology inp G NO_VPC (Some orphan_title))
              else Inr None) (\<lambda>orphan.
     Inr \<lparr>run_graph = G, run_unattached = unattached,
          run_diagrams = ds, run_orphan = orphan\<rparr>))))"

section \<open>Sample inventories\<close>

definition no_resources :: inventory where
  "no_resources =
     \<lparr>inv_Vpcs = Some [], inv_Subnets = Some [], inv_Reservations = Some [],
      inv_DBInstances = Some [], inv_LoadBalancers = Some [], inv_services = Some [],
      inv_TargetGroups = Some []\<rparr>"

text \<open>A container.\<close>

definition web_vpc :: vpc where
  "web_vpc = \<lparr>vpc_VpcId = Some ''vpc-1'', vpc_CidrBlock = Some ''10.0.0.0/16''\<rparr>"

text \<open>A service bound to a classic load balancer: the binding carries the name and no target group.\<close>

definition classic_binding :: binding where
  "classic_binding = \<lparr>b_loadBalancerName = Some ''web'', b_targetGroupArn = None\<rparr>"

definition classic_inventory :: inventory where
  "classic_inventory =
     no_resources\<lparr>inv_services := Some
       [\<lparr>svc_serviceName = Some ''api'',
         svc_clusterArn = Some ''arn:aws:ecs:us-east-1:111122223333:cluster/main'',
         svc_loadBalancers = Some [classic_binding]\<rparr>]\<rparr>"

text \<open>A database without a subnet group.\<close>

definition orphan_db_inventory :: inventory where
  "orphan_db_inventory =
     no_resources\<lparr>inv_DBInstances := Some
       [\<lparr>db_DBInstanceIdentifier = Some ''db1'', db_DBSubnetGroup = None\<rparr>]\<rparr>"

text \<open>A database whose subnet group names a subnet that \<^verbatim>\<open>subnets.json\<close> does not list.\<close>

definition dangling_subnet_inventory :: inventory where
  "dangling_subnet_inventory =
     no_resources\<lparr>inv_DBInstances := Some
       [\<lparr>db_DBInstanceIdentifier = Some ''db1'',
         db_DBSubnetGroup = Some \<lparr>dsg_Subnets = Some
           [\<lparr>dsn_SubnetIdentifier = Some ''subnet-9''\<rparr>]\<rparr>\<rparr>]\<rparr>"

text \<open>A subnet whose tag list is present and empty.\<close>

definition empty_tags_inventory :: inventory where
  "empty_tags_inventory =
     no_resources\<lparr>
       inv_Vpcs := Some [web_vpc],
       inv_Subnets := Some
         [\<lparr>sn_SubnetId = Some ''subnet-1'', sn_VpcId = Some ''vpc-1'', sn_Tags = Some []\<rparr>]\<rparr>"


text \<open>A service whose only binding holds a target-group reference without any \<^verbatim>\<open>/\<close>.\<close>

definition short_arn_binding :: binding where
  "short_arn_binding = \<lparr>b_loadBalancerName = None, b_targetGroupArn = Some ''my-tg''\<rparr>"

definition short_arn_inventory :: inventory where
  "short_arn_inventory =
     no_resources\<lparr>inv_services := Some
       [\<lparr>svc_serviceName = Some ''api'',
         svc_clusterArn = Some ''arn:aws:ecs:us-east-1:111122223333:cluster/main'',
         svc_loadBalancers = Some [short_arn_binding]\<rparr>]\<rparr>"

text \<open>
  One container with one tagged subnet and a database in that subnet; and the same with
  a second database that has no subnet group.
\<close>

definition web_subnet :: subnet where
  "web_subnet =
     \<lparr>sn_SubnetId = Some ''subnet-1'', sn_VpcId = Some ''vpc-1'',
      sn_Tags = Some [\<lparr>tag_Value = Some ''web''\<rparr>]\<rparr>"

definition web_db :: db_instance where
  "web_db =
     \<lparr>db_DBInstanceIdentifier = Some ''db1'',
      db_DBSubnetGroup = Some \<lparr>dsg_Subnets = Some
        [\<lparr>dsn_SubnetIdentifier = Some ''subnet-1''\<rparr>]\<rparr>\<rparr>"

definition lone_db :: db_instance where
  "lone_db = \<lparr>db_DBInstanceIdentifier = Some ''db2'', db_DBSubnetGroup = None\<rparr>"

definition attached_inventory :: inventory where
  "attached_inventory =
     no_resources\<lparr>inv_Vpcs := Some [web_vpc], inv_Subnets := Some [web_subnet],
       inv_DBInstances := Some [web_db]\<rparr>"

definition web_inventory :: inventory where
  "web_inventory = attached_inventory\<lparr>inv_DBInstances := Some [web_db, lone_db]\<rparr>"

text \<open>The graphs of these two inventories, step by step.\<close>

definition rds_attrs :: attrs where
  "rds_attrs = \<lparr>a_label = Some ''RDS'', a_color = Some ''plum'', a_layer = Some 0\<rparr>"

definition web_graph2 :: graph where
  "web_graph2 =
     \<lparr>g_nodes =
        [(''vpc-1'', \<lparr>a_label = Some (''VPC'' @ nl @ ''10.0.0.0/16''),
                      a_color = Some ''skyblue'', a_layer = Some 2\<rparr>),
         (''subnet-1'', \<lparr>a_label = Some (''Subnet'' @ nl @ ''web''),
                         a_color = Some ''lightgreen'', a_layer = Some 1\<rparr>)],
      g_edges = [(''vpc-1'', ''subnet-1'')]\<rparr>"

definition attached_graph :: graph where
  "attached_graph =
     \<lparr>g_nodes = g_nodes web_graph2 @ [(''db1'', rds_attrs)],
      g_edges = [(''vpc-1'', ''subnet-1''), (''subnet-1'', ''db1'')]\<rparr>"

definition web_graph3 :: graph where
  "web_graph3 =
     \<lparr>g_nodes = g_nodes web_graph2 @ [(''db1'', rds_attrs), (''db2'', rds_attrs)],
      g_edges = [(''vpc-1'', ''subnet-1''), (''subnet-1'', ''db1'')]\<rparr>"


definition db1_graph :: graph where
  "db1_graph = \<lparr>g_nodes = [(''db1'', rds_attrs)], g_edges = []\<rparr>"

text \<open>
  A database whose subnet group lists the subnet of \<open>web_subnet\<close> and a subnet that
  \<^verbatim>\<open>subnets.json\<close> does not have; and the graph of step 3 for it, after steps 1 and 2
  of \<open>attached_inventory\<close>.
\<close>

definition mixed_db :: db_instance where
  "mixed_db =
     \<lparr>db_DBInstanceIdentifier = Some ''db3'',
      db_DBSubnetGroup = Some \<lparr>dsg_Subnets = Some
        [\<lparr>dsn_SubnetIdentifier = Some ''subnet-1''\<rparr>,
         \<lparr>dsn_SubnetIdentifier = Some ''subnet-9''\<rparr>]\<rparr>\<rparr>"

definition mixed_graph :: graph where
  "mixed_graph =
     \<lparr>g_nodes = g_nodes web_graph2 @ [(''db3'', rds_attrs), (''subnet-9'', no_attrs)],
      g_edges = [(''vpc-1'', ''subnet-1''), (''subnet-1'', ''db3''), (''subnet-9'', ''db3'')]\<rparr>"

text \<open>A binding that holds only an ELBv2 target-group ARN.\<close>

definition tg_binding :: binding where
  "tg_binding =
     \<lparr>b_loadBalancerName = None,
      b_targetGroupArn = Some
        ''arn:aws:elasticloadbalancing:us-east-1:111122223333:targetgroup/my-tg/abc123''\<rparr>"

section \<open>Notions used in the statements\<close>

text \<open>The subnet ids that lines 69-71 turn into edges: the entries with a non-empty identifier.\<close>

fun listed_subnet_ids :: "db_subnet list \<Rightarrow> string list" where
  "listed_subnet_ids [] = []"
| "listed_subnet_ids (sn # sns) =
     (case dsn_SubnetIdentifier sn of
        None \<Rightarrow> listed_subnet_ids sns
      | Some sn_id \<Rightarrow> if sn_id \<noteq> [] then sn_id # listed_subnet_ids sns else listed_subnet_ids sns)"

text \<open>The test of lines 107-109 on one entry of the node table.\<close>

definition is_unattached :: "graph \<Rightarrow> string \<times> attrs \<Rightarrow> bool" where
  "is_unattached G p =
     (in_degree G (fst p) = 0
      \<and> (case a_label (snd p) of None \<Rightarrow> False | Some l \<Rightarrow> l \<in> always_contained))"

section \<open>Splitting\<close>

lemma split_from_nonempty: "split_from c cur s \<noteq> []"
  by (induction s arbitrary: cur) auto

lemma split_on_nonempty: "split_on c s \<noteq> []"
  by (simp add: split_on_def split_from_nonempty)

lemma split_from_no_separator: "c \<notin> set s \<Longrightarrow> split_from c cur s = [cur @ s]"
  by (induction s arbitrary: cur) auto

lemma split_on_no_separator: "c \<notin> set s \<Longrightarrow> split_on c s = [s]"
  by (simp add: split_on_def split_from_no_separator)

section \<open>Node ids stay unique\<close>

lemma upsert_keys: "fst ` set (upsert k v ps) = insert k (fst ` set ps)"
  by (induction ps) auto


lemma add_node_edges: "g_edges (add_node G n l c y) = g_edges G"
  by (simp add: add_node_def)

lemma add_node_ids: "set (node_ids (add_node G n l c y)) = insert n (set (node_ids G))"
  by (simp add: add_node_def node_ids_def upsert_keys)


lemma ensure_node_edges: "g_edges (ensure_node G n) = g_edges G"
  by (simp add: ensure_node_def)

lemma ensure_node_ids: "set (node_ids (ensure_node G n)) = insert n (set (node_ids G))"
  by (auto simp: ensure_node_def has_node_def node_ids_def)


lemma add_edge_nodes: "g_nodes (add_edge G u v) = g_nodes (ensure_node (ensure_node G u) v)"
  by (simp add: add_edge_def Let_def)

lemma add_edge_ids: "set (node_ids (add_edge G u v)) = insert u (insert v (set (node_ids G)))"
  using ensure_node_ids [of "ensure_node G u" v] ensure_node_ids [of G u]
  by (auto simp: node_ids_def add_edge_nodes)


lemma add_edge_edges: "set (g_edges (add_edge G u v)) = insert (u, v) (set (g_edges G))"
  by (auto simp: add_edge_def Let_def has_edge_def ensure_node_edges)

















section \<open>Predecessors of a node\<close>

lemma predecessors_add_node: "predecessors (add_node G n l c y) v = predecessors G v"
  by (simp add: predecessors_def add_node_edges)

lemma predecessors_add_edge:
  "set (predecessors (add_edge G u v) n) = set (predecessors G n) \<union> (if v = n then {u} else {})"
  by (force simp: predecessors_def add_edge_edges)

lemma predecessors_add_edge_distinct:
  "distinct (predecessors G n) \<Longrightarrow> distinct (predecessors (add_edge G u v) n)"
  by (auto simp: predecessors_def add_edge_def Let_def has_edge_def ensure_node_edges)

lemma predecessors_db_subnets:
  "set (predecessors (foldl (db_subnet_step d) H sns) n)
     = set (predecessors H n) \<union> (if d = n then set (listed_subnet_ids sns) else {})"
  by (induction sns arbitrary: H)
     (auto simp: db_subnet_step_def predecessors_add_edge split: option.splits)

lemma predecessors_db_subnets_distinct:
  "distinct (predecessors H n) \<Longrightarrow> distinct (predecessors (foldl (db_subnet_step d) H sns) n)"
  by (induction sns arbitrary: H)
     (auto simp: db_subnet_step_def predecessors_add_edge_distinct split: option.splits)

lemma predecessors_db_step:
  "set (predecessors (db_step G d sns) n)
     = set (predecessors G n) \<union> (if d = n then set (listed_subnet_ids sns) else {})"
  by (simp add: db_step_def predecessors_db_subnets predecessors_add_node)

lemma predecessors_db_step_distinct:
  "distinct (predecessors G n) \<Longrightarrow> distinct (predecessors (db_step G d sns) n)"
  by (simp add: db_step_def predecessors_db_subnets_distinct predecessors_add_node)

lemma predecessors_dbs_loop_distinct:
  "dbs_loop G dbs = Inr G' \<Longrightarrow> distinct (predecessors G n) \<Longrightarrow> distinct (predecessors G' n)"
  by (induction dbs arbitrary: G) (auto simp: predecessors_db_step_distinct split: option.splits)

lemma predecessors_dbs_loop_other:
  "dbs_loop G dbs = Inr G' \<Longrightarrow> \<forall>d \<in> set dbs. db_DBInstanceIdentifier d \<noteq> Some n
     \<Longrightarrow> set (predecessors G' n) = set (predecessors G n)"
  by (induction dbs arbitrary: G) (auto simp: predecessors_db_step split: option.splits)

lemma predecessors_dbs_loop:
  "dbs_loop G dbs = Inr G' \<Longrightarrow> db \<in> set dbs \<Longrightarrow> db_DBInstanceIdentifier db = Some n
     \<Longrightarrow> \<forall>d \<in> set dbs. db_DBInstanceIdentifier d = Some n \<longrightarrow> d = db
     \<Longrightarrow> set (predecessors G' n) = set (predecessors G n) \<union> set (listed_subnet_ids (db_subnets db))"
proof (induction dbs arbitrary: G)
  case Nil
  then show ?case by simp
next
  case (Cons d dbs)
  from Cons.prems(1) obtain i where i: "db_DBInstanceIdentifier d = Some i"
    and rest: "dbs_loop (db_step G i (db_subnets d)) dbs = Inr G'"
    by (auto split: option.splits)
  show ?case
  proof (cases "db \<in> set dbs")
    case True
    have same: "i = n \<Longrightarrow> d = db" using Cons.prems(4) i by simp
    have "set (predecessors G' n)
            = set (predecessors (db_step G i (db_subnets d)) n) \<union> set (listed_subnet_ids (db_subnets db))"
      using Cons.IH [OF rest True Cons.prems(3)] Cons.prems(4) by simp
    then show ?thesis using same by (auto simp: predecessors_db_step)
  next
    case False
    then have d: "d = db" using Cons.prems(2) by simp
    then have "i = n" using i Cons.prems(3) by simp
    moreover have "\<forall>x \<in> set dbs. db_DBInstanceIdentifier x \<noteq> Some n"
      using Cons.prems(4) False by auto
    ultimately show ?thesis
      using predecessors_dbs_loop_other [OF rest] d by (simp add: predecessors_db_step)
  qed
qed

section \<open>The unattached pass\<close>

lemma unattached_loop_filter:
  "unattached_loop G ps = Inr un \<Longrightarrow> un = map fst (filter (is_unattached G) ps)"
  by (induction ps arbitrary: un)
     (auto simp: is_unattached_def split: if_splits option.splits sum.splits)

lemma sentinel_edges_mono:
  "has_edge H u v \<Longrightarrow> has_edge (foldl (\<lambda>g n. add_edge g NO_VPC n) H un) u v"
  by (induction un arbitrary: H) (auto simp: has_edge_def add_edge_edges)

lemma sentinel_edges_added:
  "n \<in> set un \<Longrightarrow> has_edge (foldl (\<lambda>g n. add_edge g NO_VPC n) H un) NO_VPC n"
proof (induction un arbitrary: H)
  case Nil
  then show ?case by simp
next
  case (Cons m un)
  show ?case
  proof (cases "n = m")
    case True
    have "has_edge (add_edge H NO_VPC m) NO_VPC m"
      by (simp add: has_edge_def add_edge_edges)
    then show ?thesis using True sentinel_edges_mono by simp
  next
    case False
    then show ?thesis using Cons by simp
  qed
qed

lemma sentinel_nodes_mono:
  "has_node H x \<Longrightarrow> has_node (foldl (\<lambda>g n. add_edge g NO_VPC n) H un) x"
  by (induction un arbitrary: H) (auto simp: has_node_def add_edge_ids)

lemma sentinel_pass_node:
  "un \<noteq> [] \<Longrightarrow> has_node (sentinel_pass G un) NO_VPC"
proof -
  have "has_node (add_node G NO_VPC ''No VPC'' ''lightgray'' 0) NO_VPC"
    by (simp add: has_node_def add_node_ids)
  then show "un \<noteq> [] \<Longrightarrow> ?thesis"
    by (simp add: sentinel_pass_def sentinel_nodes_mono)
qed

lemma sentinel_pass_edges:
  "n \<in> set un \<Longrightarrow> has_edge (sentinel_pass G un) NO_VPC n"
  by (auto simp: sentinel_pass_def sentinel_edges_added)

lemma py_bind_Inr:
  "py_bind x f = Inr y \<Longrightarrow> \<exists>a. x = Inr a \<and> f a = Inr y"
  by (cases x) (simp_all add: py_bind_def)

lemma builder_run:
  assumes "builder inp = Inr (G, un)"
  shows "\<exists>G7. build_steps inp = Inr G7 \<and> unattached_nodes G7 = Inr un \<and> G = sentinel_pass G7 un"
proof -
  from py_bind_Inr [OF assms [unfolded builder_def]]
  obtain G7 where G7: "build_steps inp = Inr G7"
    and k: "py_bind (unattached_nodes G7) (\<lambda>unattached. Inr (sentinel_pass G7 unattached, unattached)) = Inr (G, un)"
    by blast
  from py_bind_Inr [OF k] have "unattached_nodes G7 = Inr un \<and> G = sentinel_pass G7 un"
    by auto
  then show ?thesis using G7 by blast
qed

lemma main_run:
  assumes "main inp = Inr r"
  shows "builder inp = Inr (run_graph r, run_unattached r)
       \<and> (run_orphan r = None) = (run_unattached r = [])"
proof -
  from py_bind_Inr [OF assms [unfolded main_def]]
  obtain G un where b: "builder inp = Inr (G, un)"
    and k1: "py_bind (require ''Vpcs'' (inv_Vpcs inp)) (\<lambda>vpcs.
             py_bind (vpc_diagrams inp G vpcs) (\<lambda>ds.
             py_bind (if un \<noteq> []
                      then map_sum id Some (draw_vpc_topology inp G NO_VPC (Some orphan_title))
                      else Inr None) (\<lambda>orphan.
             Inr \<lparr>run_graph = G, run_unattached = un,
                  run_diagrams = ds, run_orphan = orphan\<rparr>))) = Inr r"
    by auto
  from py_bind_Inr [OF k1] obtain vpcs where
    k2: "py_bind (vpc_diagrams inp G vpcs) (\<lambda>ds.
             py_bind (if un \<noteq> []
                      then map_sum id Some (draw_vpc_topology inp G NO_VPC (Some orphan_title))
                      else Inr None) (\<lambda>orphan.
             Inr \<lparr>run_graph = G, run_unattached = un,
                  run_diagrams = ds, run_orphan = orphan\<rparr>)) = Inr r"
    by blast
  from py_bind_Inr [OF k2] obtain ds where
    k3: "py_bind (if un \<noteq> []
                      then map_sum id Some (draw_vpc_topology inp G NO_VPC (Some orphan_title))
                      else Inr None) (\<lambda>orphan.
             Inr \<lparr>run_graph = G, run_unattached = un,
                  run_diagrams = ds, run_orphan = orphan\<rparr>) = Inr r"
    by blast
  from py_bind_Inr [OF k3] obtain orphan where
    o: "(if un \<noteq> []
         then map_sum id Some (draw_vpc_topology inp G NO_VPC (Some orphan_title))
         else Inr None) = Inr orphan"
    and r: "r = \<lparr>run_graph = G, run_unattached = un, run_diagrams = ds, run_orphan = orphan\<rparr>"
    by auto
  have "(orphan = None) = (un = [])"
    using o by (cases "draw_vpc_topology inp G NO_VPC (Some orphan_title)") (auto split: if_splits)
  then show ?thesis using b r by simp
qed

lemma unattached_set:
  "fst ` {p \<in> set ps. is_unattached G p}
     = {n. \<exists>a l. (n, a) \<in> set ps \<and> a_label a = Some l
                  \<and> l \<in> always_contained \<and> in_degree G n = 0}"
proof (intro set_eqI iffI)
  fix n
  assume "n \<in> fst ` {p \<in> set ps. is_unattached G p}"
  then obtain a where "(n, a) \<in> set ps" and "is_unattached G (n, a)"
    by auto
  then show "n \<in> {n. \<exists>a l. (n, a) \<in> set ps \<and> a_label a = Some l
                  \<and> l \<in> always_contained \<and> in_degree G n = 0}"
    by (cases "a_label a") (auto simp: is_unattached_def)
next
  fix n
  assume "n \<in> {n. \<exists>a l. (n, a) \<in> set ps \<and> a_label a = Some l
                  \<and> l \<in> always_contained \<and> in_degree G n = 0}"
  then obtain a l where mem: "(n, a) \<in> set ps" and "a_label a = Some l"
    and "l \<in> always_contained" and "in_degree G n = 0"
    by blast
  then have "is_unattached G (n, a)"
    by (simp add: is_unattached_def)
  then show "n \<in> fst ` {p \<in> set ps. is_unattached G p}"
    using mem by force
qed

lemma map_sum_Inr: "map_sum id f x = Inr y \<Longrightarrow> \<exists>r. x = Inr r \<and> f r = y"
  by (cases x) simp_all

section \<open>Nodes that an edge creates\<close>

lemma ensure_node_lookup:
  "\<not> has_node G n \<Longrightarrow> map_of (g_nodes (ensure_node G n)) n = Some no_attrs"
  by (simp add: ensure_node_def has_node_def node_ids_def map_of_eq_None_iff [symmetric] map_add_def)

lemma ensure_node_keeps:
  "map_of (g_nodes G) n = Some a \<Longrightarrow> map_of (g_nodes (ensure_node G m)) n = Some a"
  by (simp add: ensure_node_def map_add_def)

section \<open>Name resolution of step 7\<close>

lemma resolve_lb_name_no_slash:
  assumes "b_loadBalancerName lb = None \<or> b_loadBalancerName lb = Some []"
      and "b_targetGroupArn lb = Some arn" and "arn \<noteq> []" and "CHR ''/'' \<notin> set arn"
  shows "resolve_lb_name lb = Inl IndexError"
  using assms
  by (auto simp: resolve_lb_name_def binding_tg_arn_def index_minus2_def split_on_no_separator)

section \<open>The recount of the legend\<close>

text \<open>
  Once step 8 has run, the test of lines 107-109 holds for no node of the graph: the
  legend's own count (lines 145-150) is zero in every diagram of every run, and the
  legend has its six fixed entries and never a seventh.
\<close>

lemma unattached_loop_none:
  "(\<And>p. p \<in> set ps \<Longrightarrow> in_degree G (fst p) = 0
        \<Longrightarrow> \<exists>l. a_label (snd p) = Some l \<and> l \<notin> always_contained)
   \<Longrightarrow> unattached_loop G ps = Inr []"
proof (induction ps)
  case Nil
  then show ?case by simp
next
  case (Cons p ps)
  have rest: "unattached_loop G ps = Inr []"
    using Cons by simp
  show ?case
  proof (cases "in_degree G (fst p) = 0")
    case True
    then obtain l where "a_label (snd p) = Some l" and "l \<notin> always_contained"
      using Cons.prems [of p] by auto
    then show ?thesis using True rest by simp
  next
    case False
    then show ?thesis using rest by simp
  qed
qed

lemma unattached_loop_label:
  "unattached_loop G ps = Inr un \<Longrightarrow> p \<in> set ps \<Longrightarrow> in_degree G (fst p) = 0
   \<Longrightarrow> \<exists>l. a_label (snd p) = Some l \<and> (l \<in> always_contained \<longrightarrow> fst p \<in> set un)"
  by (induction ps arbitrary: un) (auto split: if_splits option.splits sum.splits)

lemma upsert_entries: "set (upsert k v ps) \<subseteq> insert (k, v) (set ps)"
  by (induction ps) auto

lemma add_edge_same_nodes:
  "has_node H u \<Longrightarrow> has_node H v \<Longrightarrow> g_nodes (add_edge H u v) = g_nodes H"
  by (simp add: add_edge_nodes ensure_node_def)

lemma sentinel_fold_nodes:
  "has_node H NO_VPC \<Longrightarrow> set un \<subseteq> set (node_ids H)
   \<Longrightarrow> g_nodes (foldl (\<lambda>g n. add_edge g NO_VPC n) H un) = g_nodes H"
proof (induction un arbitrary: H)
  case Nil
  then show ?case by simp
next
  case (Cons n un)
  have same: "g_nodes (add_edge H NO_VPC n) = g_nodes H"
    using Cons.prems by (simp add: add_edge_same_nodes has_node_def)
  then have "has_node (add_edge H NO_VPC n) NO_VPC"
    and "set un \<subseteq> set (node_ids (add_edge H NO_VPC n))"
    using Cons.prems by (simp_all add: has_node_def node_ids_def)
  then show ?case using Cons.IH same by simp
qed

lemma in_degree_zero:
  "(in_degree G n = 0) = (\<forall>u. \<not> has_edge G u n)"
  by (force simp: in_degree_def predecessors_def has_edge_def filter_empty_conv)

lemma unattached_in_nodes:
  "unattached_nodes G = Inr un \<Longrightarrow> set un \<subseteq> set (node_ids G)"
  by (auto simp: unattached_nodes_def node_ids_def dest!: unattached_loop_filter)

lemma recount_is_empty:
  assumes "unattached_nodes G7 = Inr un"
  shows "unattached_nodes (sentinel_pass G7 un) = Inr []"
proof (cases "un = []")
  case True
  have "unattached_loop G7 (g_nodes G7) = Inr []"
    using assms True by (simp add: unattached_nodes_def)
  then show ?thesis
    using True by (simp add: sentinel_pass_def unattached_nodes_def)
next
  case False
  define H where "H = add_node G7 NO_VPC ''No VPC'' ''lightgray'' 0"
  define G where "G = sentinel_pass G7 un"
  have G: "G = foldl (\<lambda>g n. add_edge g NO_VPC n) H un"
    using False by (simp add: G_def H_def sentinel_pass_def)
  have Hn: "has_node H NO_VPC"
    by (simp add: H_def has_node_def add_node_ids)
  have "set un \<subseteq> set (node_ids H)"
    using unattached_in_nodes [OF assms] by (auto simp: H_def add_node_ids)
  then have nodes: "g_nodes G = g_nodes H"
    using G Hn sentinel_fold_nodes by simp
  have entries: "set (g_nodes H)
      \<subseteq> insert (NO_VPC, \<lparr>a_label = Some ''No VPC'', a_color = Some ''lightgray'', a_layer = Some 0\<rparr>)
           (set (g_nodes G7))"
    by (simp add: H_def add_node_def upsert_entries)
  have old_edges: "has_edge G7 u v \<Longrightarrow> has_edge G u v" for u v
    using sentinel_edges_mono [of H u v un] by (simp add: G H_def has_edge_def add_node_edges)
  have "unattached_loop G (g_nodes G) = Inr []"
  proof (rule unattached_loop_none)
    fix p
    assume p: "p \<in> set (g_nodes G)" and zero: "in_degree G (fst p) = 0"
    show "\<exists>l. a_label (snd p) = Some l \<and> l \<notin> always_contained"
    proof (cases "p = (NO_VPC, \<lparr>a_label = Some ''No VPC'', a_color = Some ''lightgray'', a_layer = Some 0\<rparr>)")
      case True
      then show ?thesis by (simp add: always_contained_def)
    next
      case False
      then have old: "p \<in> set (g_nodes G7)"
        using p nodes entries by auto
      have "in_degree G7 (fst p) = 0"
        using zero old_edges by (auto simp: in_degree_zero)
      then obtain l where l: "a_label (snd p) = Some l"
        and un: "l \<in> always_contained \<longrightarrow> fst p \<in> set un"
        using unattached_loop_label [OF assms [unfolded unattached_nodes_def] old] by blast
      have "fst p \<notin> set un"
      proof
        assume "fst p \<in> set un"
        then have "has_edge G NO_VPC (fst p)"
          by (simp add: G_def sentinel_pass_edges)
        then show False using zero by (simp add: in_degree_zero)
      qed
      then show ?thesis using l un by blast
    qed
  qed
  then show ?thesis by (simp add: unattached_nodes_def G_def)
qed

lemma legend_handles_six:
  assumes "unattached_nodes G = Inr []" and "legend_handles inp G = Inr L"
  shows "map fst L = [''skyblue'', ''lightgreen'', ''orange'', ''plum'', ''lightslategray'', ''gold'']"
  using assms
  by (auto simp: legend_handles_def py_bind_def patch_def split: sum.splits)

lemma draw_vpc_topology_legend:
  "draw_vpc_topology inp G vpc_id title = Inr d \<Longrightarrow> legend_handles inp G = Inr (d_legend d)"
  by (auto simp: draw_vpc_topology_def py_bind_def split: sum.splits)

lemma vpc_diagrams_legend:
  "vpc_diagrams inp G vs = Inr ds \<Longrightarrow> d \<in> set ds \<Longrightarrow> legend_handles inp G = Inr (d_legend d)"
  by (induction vs arbitrary: ds)
     (auto split: option.splits sum.splits dest: draw_vpc_topology_legend)

lemma main_diagrams:
  assumes "main inp = Inr r"
  shows "(\<exists>vpcs. vpc_diagrams inp (run_graph r) vpcs = Inr (run_diagrams r))
       \<and> (\<forall>d. run_orphan r = Some d
              \<longrightarrow> draw_vpc_topology inp (run_graph r) NO_VPC (Some orphan_title) = Inr d)"
proof -
  from py_bind_Inr [OF assms [unfolded main_def]]
  obtain G un where
    k1: "py_bind (require ''Vpcs'' (inv_Vpcs inp)) (\<lambda>vpcs.
             py_bind (vpc_diagrams inp G vpcs) (\<lambda>ds.
             py_bind (if un \<noteq> []
                      then map_sum id Some (draw_vpc_topology inp G NO_VPC (Some orphan_title))
                      else Inr None) (\<lambda>orphan.
             Inr \<lparr>run_graph = G, run_unattached = un,
                  run_diagrams = ds, run_orphan = orphan\<rparr>))) = Inr r"
    by auto
  from py_bind_Inr [OF k1] obtain vpcs where
    k2: "py_bind (vpc_diagrams inp G vpcs) (\<lambda>ds.
             py_bind (if un \<noteq> []
                      then map_sum id Some (draw_vpc_topology inp G NO_VPC (Some orphan_title))
                      else Inr None) (\<lambda>orphan.
             Inr \<lparr>run_graph = G, run_unattached = un,
                  run_diagrams = ds, run_orphan = orphan\<rparr>)) = Inr r"
    by blast
  from py_bind_Inr [OF k2] obtain ds where ds: "vpc_diagrams inp G vpcs = Inr ds" and
    k3: "py_bind (if un \<noteq> []
                      then map_sum id Some (draw_vpc_topology inp G NO_VPC (Some orphan_title))
                      else Inr None) (\<lambda>orphan.
             Inr \<lparr>run_graph = G, run_unattached = un,
                  run_diagrams = ds, run_orphan = orphan\<rparr>) = Inr r"
    by blast
  from py_bind_Inr [OF k3] obtain orphan where
    o: "(if un \<noteq> []
         then map_sum id Some (draw_vpc_topology inp G NO_VPC (Some orphan_title))
         else Inr None) = Inr orphan"
    and r: "r = \<lparr>run_graph = G, run_unattached = un, run_diagrams = ds, run_orphan = orphan\<rparr>"
    by auto
  have "orphan = Some d \<Longrightarrow> draw_vpc_topology inp G NO_VPC (Some orphan_title) = Inr d" for d
    using o by (cases "draw_vpc_topology inp G NO_VPC (Some orphan_title)") (auto split: if_splits)
  then show ?thesis using ds r by auto
qed

lemma legend_never_shows_unattached:
  assumes "main inp = Inr r"
      and "d \<in> set (run_diagrams r) \<or> run_orphan r = Some d"
  shows "map fst (d_legend d)
           = [''skyblue'', ''lightgreen'', ''orange'', ''plum'', ''lightslategray'', ''gold'']"
proof -
  from main_run [OF assms(1)] have "builder inp = Inr (run_graph r, run_unattached r)"
    by simp
  from builder_run [OF this] obtain G7 where "unattached_nodes G7 = Inr (run_unattached r)"
    and "run_graph r = sentinel_pass G7 (run_unattached r)"
    by blast
  then have recount: "unattached_nodes (run_graph r) = Inr []"
    by (simp add: recount_is_empty)
  have "legend_handles inp (run_graph r) = Inr (d_legend d)"
    using assms(2) main_diagrams [OF assms(1)]
    by (auto dest: vpc_diagrams_legend draw_vpc_topology_legend)
  then show ?thesis using recount by (rule legend_handles_six [rotated])
qed

section \<open>Defaults of optional fields\<close>

lemma vpc_label_without_cidr:
  "vpc_CidrBlock v = None \<Longrightarrow> vpc_label v = ''VPC'' @ nl @ ''unknown''"
  by (simp add: vpc_label_def)

lemma subnet_name_without_tags:
  "sn_Tags s = None \<Longrightarrow> sn_SubnetId s = Some sid \<Longrightarrow> subnet_name s = Inr sid"
  by (simp add: subnet_name_def)

lemma subnet_name_without_value:
  "sn_Tags s = Some (t # ts) \<Longrightarrow> tag_Value t = None \<Longrightarrow> sn_SubnetId s = Some sid
   \<Longrightarrow> subnet_name s = Inr sid"
  by (simp add: subnet_name_def)

lemma subnet_name_empty_tags:
  "sn_Tags s = Some [] \<Longrightarrow> subnet_name s = Inl IndexError"
  by (simp add: subnet_name_def)

lemma db_step_without_subnets:
  "db_DBSubnetGroup db = None \<or> db_DBSubnetGroup db = Some \<lparr>dsg_Subnets = None\<rparr>
   \<Longrightarrow> db_step G db_id (db_subnets db) = add_node G db_id ''RDS'' ''plum'' 0"
  by (auto simp: db_step_def db_subnets_def get_list_def)

lemma resolve_lb_name_without_arn:
  "b_targetGroupArn lb = None \<or> b_targetGroupArn lb = Some [] \<Longrightarrow> resolve_lb_name lb = Inr None"
  by (auto simp: resolve_lb_name_def binding_tg_arn_def)

lemma main_no_resources:
  "main no_resources
     = Inr \<lparr>run_graph = empty_graph, run_unattached = [], run_diagrams = [], run_orphan = None\<rparr>"
  by code_simp

section \<open>Counting listed subnets\<close>

lemma card_set_split:
  "card (set xs) = card (set (filter P xs)) + card (set (filter (\<lambda>x. \<not> P x) xs))"
proof -
  have "set xs = set (filter P xs) \<union> set (filter (\<lambda>x. \<not> P x) xs)"
    by auto
  moreover have "set (filter P xs) \<inter> set (filter (\<lambda>x. \<not> P x) xs) = {}"
    by auto
  ultimately show ?thesis
    using card_Un_disjoint [of "set (filter P xs)" "set (filter (\<lambda>x. \<not> P x) xs)"] by simp
qed

section \<open>The claims\<close>

text \<open>
  C1. Step 7 is said to resolve the load-balancer name of a binding by the two-path rule
  of step 5, the direct name taking precedence whenever it is present. The code does
  not: on line 93 the conditional expression encloses the \<^verbatim>\<open>or\<close>, so a binding without
  a target-group ARN resolves to no name even when it carries \<^verbatim>\<open>loadBalancerName\<close>.
  For the binding \<^verbatim>\<open>{"loadBalancerName": "web"}\<close> step 5 records \<open>web\<close>, step 7
  resolves \<^verbatim>\<open>None\<close>, and the run ends with neither the node \<^verbatim>\<open>LB:web\<close> nor the edge
  from the service to it.
\<close>

theorem step7_ignores_direct_name:
  "b_loadBalancerName classic_binding = Some ''web''
   \<and> b_targetGroupArn classic_binding = None
   \<and> used_lb_names_binding {} classic_binding = {''web''}
   \<and> resolve_lb_name classic_binding = Inr None
   \<and> map_sum id (\<lambda>r. (has_node (run_graph r) ''LB:web'',
                       has_edge (run_graph r) ''SVC:api'' ''LB:web''))
        (main classic_inventory) = Inr (False, False)"
  by code_simp

text \<open>
  C2. The legend is said to show the unattached count whenever the orphan partition is
  not empty. The code counts again when it draws (lines 145-150), on the graph that
  step 8 has already changed: every unattached node has an edge from \<^verbatim>\<open>NO_VPC\<close> by then,
  the count is zero and the entry is left out, in every run (lemma
  \<open>legend_never_shows_unattached\<close>). For one database without a subnet group the
  unattached list is \<open>[db1]\<close> and the legend of the orphan diagram has the six
  fixed entries only.
\<close>

theorem legend_without_unattached_entry:
  "map_sum id (\<lambda>r. (run_unattached r, map_option d_legend (run_orphan r)))
     (main orphan_db_inventory)
   = Inr ([''db1''],
          Some [(''skyblue'', ''VPCs (0)''), (''lightgreen'', ''Subnets (0)''),
                (''orange'', ''EC2 instances (0)''), (''plum'', ''RDS instances (1)''),
                (''lightslategray'', ''Load Balancers (0)''), (''gold'', ''ECS Services (0)'')])"
  by code_simp

text \<open>
  C3, as amended. A binding whose target-group ARN is not a key of the target-group map
  is skipped by lines 102-103: the graph is unchanged. A subnet entry of a database
  without a non-empty \<^verbatim>\<open>SubnetIdentifier\<close> is skipped as well. A subnet entry that names
  an id which is not yet a node is not skipped: the edge from that id to the database
  is added, and the id becomes a node without attributes.
\<close>

theorem missing_reference_handling:
  "(tg_to_vpc tg_arn = None \<longrightarrow> tg_edge_step tg_to_vpc service_id G tg_arn = G)
   \<and> (dsn_SubnetIdentifier sn = None \<or> dsn_SubnetIdentifier sn = Some []
        \<longrightarrow> db_subnet_step db_id G sn = G)
   \<and> (dsn_SubnetIdentifier sn = Some sn_id \<and> sn_id \<noteq> [] \<and> \<not> has_node G sn_id
        \<longrightarrow> has_edge (db_subnet_step db_id G sn) sn_id db_id
            \<and> map_of (g_nodes (db_subnet_step db_id G sn)) sn_id = Some no_attrs)"
proof -
  have a: "tg_to_vpc tg_arn = None \<longrightarrow> tg_edge_step tg_to_vpc service_id G tg_arn = G"
    by (simp add: tg_edge_step_def)
  have b: "dsn_SubnetIdentifier sn = None \<or> dsn_SubnetIdentifier sn = Some []
        \<longrightarrow> db_subnet_step db_id G sn = G"
    by (auto simp: db_subnet_step_def)
  have c: "dsn_SubnetIdentifier sn = Some sn_id \<and> sn_id \<noteq> [] \<and> \<not> has_node G sn_id
        \<longrightarrow> has_edge (db_subnet_step db_id G sn) sn_id db_id
            \<and> map_of (g_nodes (db_subnet_step db_id G sn)) sn_id = Some no_attrs"
  proof (intro impI)
    assume h: "dsn_SubnetIdentifier sn = Some sn_id \<and> sn_id \<noteq> [] \<and> \<not> has_node G sn_id"
    then have step: "db_subnet_step db_id G sn = add_edge G sn_id db_id"
      by (simp add: db_subnet_step_def)
    have "has_edge (add_edge G sn_id db_id) sn_id db_id"
      by (simp add: has_edge_def add_edge_edges)
    moreover have "map_of (g_nodes (add_edge G sn_id db_id)) sn_id = Some no_attrs"
      using h by (simp add: add_edge_nodes ensure_node_lookup ensure_node_keeps)
    ultimately show "has_edge (db_subnet_step db_id G sn) sn_id db_id
            \<and> map_of (g_nodes (db_subnet_step db_id G sn)) sn_id = Some no_attrs"
      using step by simp
  qed
  show ?thesis by (rule conjI [OF a conjI [OF b c]])
qed

theorem missing_reference_handling_witness:
  "tg_edge_step Map.empty ''SVC:api'' db1_graph ''my-tg'' = db1_graph
   \<and> db_subnet_step ''db1'' db1_graph \<lparr>dsn_SubnetIdentifier = None\<rparr> = db1_graph
   \<and> has_edge (db_subnet_step ''db1'' db1_graph \<lparr>dsn_SubnetIdentifier = Some ''subnet-9''\<rparr>)
        ''subnet-9'' ''db1''
   \<and> map_of (g_nodes (db_subnet_step ''db1'' db1_graph \<lparr>dsn_SubnetIdentifier = Some ''subnet-9''\<rparr>))
        ''subnet-9'' = Some no_attrs"
proof -
  have n: "\<not> has_node db1_graph ''subnet-9''"
    by (simp add: has_node_def node_ids_def db1_graph_def)
  show ?thesis
    using missing_reference_handling
            [where tg_to_vpc = Map.empty and tg_arn = "''my-tg''" and service_id = "''SVC:api''"
               and G = db1_graph and sn = "\<lparr>dsn_SubnetIdentifier = None\<rparr>" and db_id = "''db1''"]
          missing_reference_handling
            [where G = db1_graph and sn = "\<lparr>dsn_SubnetIdentifier = Some ''subnet-9''\<rparr>"
               and sn_id = "''subnet-9''" and db_id = "''db1''"]
          n
    by simp
qed

text \<open>
  C3 as stated fails: the database \<open>db1\<close> lists \<open>subnet-9\<close>, which no subnet entry
  created. After step 7 the graph has the node \<open>subnet-9\<close> and the edge to \<open>db1\<close>,
  and the unattached check then reads the label of \<open>subnet-9\<close> and raises.
\<close>

theorem dangling_subnet_becomes_node:
  "inv_Subnets dangling_subnet_inventory = Some []
   \<and> build_steps dangling_subnet_inventory
       = Inr \<lparr>g_nodes = [(''db1'', rds_attrs), (''subnet-9'', no_attrs)],
              g_edges = [(''subnet-9'', ''db1'')]\<rparr>
   \<and> builder dangling_subnet_inventory = Inl (KeyError ''label'')"
  by code_simp

text \<open>
  C4. An absent subnet tag is said to degrade to the raw subnet id, never to an abort.
  The code covers the absent \<^verbatim>\<open>Tags\<close> key (the default \<^verbatim>\<open>[{}]\<close>) and a first tag
  without \<^verbatim>\<open>Value\<close>, and misses the tag list that is present and empty:
  \<^verbatim>\<open>[][0]\<close> raises \<^verbatim>\<open>IndexError\<close> on line 62 and the run aborts.
\<close>

theorem empty_tag_list_aborts_run:
  "subnet_name \<lparr>sn_SubnetId = Some ''subnet-1'', sn_VpcId = Some ''vpc-1'', sn_Tags = Some []\<rparr>
     = Inl IndexError
   \<and> main empty_tags_inventory = Inl IndexError"
  by code_simp

text \<open>
  C5. A load balancer named in at least one binding is said to receive a node always,
  through the used-name filter or on demand in step 7. The load balancer \<open>web\<close>, named
  directly by the only binding of \<open>classic_inventory\<close> and absent from the
  load-balancer collection, is in the used-name set and receives no node: step 7
  resolves no name for a binding without a target-group ARN (line 93).
\<close>

theorem named_load_balancer_without_node:
  "inv_LoadBalancers classic_inventory = Some []
   \<and> ''web'' \<in> used_lb_names classic_inventory
   \<and> map_sum id (\<lambda>r. node_ids (run_graph r)) (main classic_inventory)
       = Inr [''CLUSTER:main'', ''SVC:api'', ''NO_VPC'']"
  by code_simp

text \<open>
  C6. For a run that completes, with \<open>G7\<close> the graph after step 7 and no resource
  that is itself called \<^verbatim>\<open>NO_VPC\<close>: the unattached list holds exactly the nodes of
  \<open>G7\<close> with in-degree zero and a label among EC2, RDS, ECS Cluster and ECS Task. If
  it is empty the graph stays \<open>G7\<close>, has no \<^verbatim>\<open>NO_VPC\<close> node, and no orphan diagram is
  drawn. If it is not empty the final graph has the node \<^verbatim>\<open>NO_VPC\<close> with an edge to
  every unattached node, and the orphan diagram is drawn.
\<close>

theorem unattached_pass:
  assumes "build_steps inp = Inr G7"
      and "main inp = Inr r"
      and "\<not> has_node G7 NO_VPC"
  shows "set (run_unattached r)
           = {n. \<exists>a l. (n, a) \<in> set (g_nodes G7) \<and> a_label a = Some l
                        \<and> l \<in> always_contained \<and> in_degree G7 n = 0}
       \<and> (run_unattached r = []
            \<longrightarrow> run_graph r = G7 \<and> \<not> has_node (run_graph r) NO_VPC \<and> run_orphan r = None)
       \<and> (run_unattached r \<noteq> []
            \<longrightarrow> has_node (run_graph r) NO_VPC \<and> run_orphan r \<noteq> None
                \<and> (\<forall>n \<in> set (run_unattached r). has_edge (run_graph r) NO_VPC n))"
proof -
  from main_run [OF assms(2)] have bld: "builder inp = Inr (run_graph r, run_unattached r)"
    and orphan: "(run_orphan r = None) = (run_unattached r = [])"
    by simp_all
  from builder_run [OF bld] obtain H where H: "build_steps inp = Inr H"
    and un: "unattached_nodes H = Inr (run_unattached r)"
    and G: "run_graph r = sentinel_pass H (run_unattached r)"
    by blast
  from H assms(1) have HG: "H = G7" by simp
  have "run_unattached r = map fst (filter (is_unattached G7) (g_nodes G7))"
    using un HG by (simp add: unattached_nodes_def unattached_loop_filter)
  then have a: "set (run_unattached r)
           = {n. \<exists>a l. (n, a) \<in> set (g_nodes G7) \<and> a_label a = Some l
                        \<and> l \<in> always_contained \<and> in_degree G7 n = 0}"
    by (simp add: unattached_set)
  have b: "run_unattached r = []
            \<longrightarrow> run_graph r = G7 \<and> \<not> has_node (run_graph r) NO_VPC \<and> run_orphan r = None"
    using G HG orphan assms(3) by (simp add: sentinel_pass_def)
  have c: "run_unattached r \<noteq> []
            \<longrightarrow> has_node (run_graph r) NO_VPC \<and> run_orphan r \<noteq> None
                \<and> (\<forall>n \<in> set (run_unattached r). has_edge (run_graph r) NO_VPC n)"
    using G orphan by (simp add: sentinel_pass_node sentinel_pass_edges)
  show ?thesis by (rule conjI [OF a conjI [OF b c]])
qed

theorem unattached_pass_witness:
  "map_sum id (\<lambda>r. (run_unattached r, has_node (run_graph r) NO_VPC, run_orphan r = None))
     (main attached_inventory) = Inr ([], False, True)
   \<and> map_sum id (\<lambda>r. (run_unattached r, has_node (run_graph r) NO_VPC, run_orphan r = None,
                       has_edge (run_graph r) NO_VPC ''db2''))
       (main web_inventory) = Inr ([''db2''], True, False, True)"
proof -
  have b1: "build_steps attached_inventory = Inr attached_graph"
    by code_simp
  have n1: "\<not> has_node attached_graph NO_VPC"
    by code_simp
  have "map_sum id run_unattached (main attached_inventory) = Inr []"
    by code_simp
  from map_sum_Inr [OF this]
  obtain r1 where m1: "main attached_inventory = Inr r1" and u1: "run_unattached r1 = []"
    by blast
  have first: "\<not> has_node (run_graph r1) NO_VPC \<and> run_orphan r1 = None"
    using unattached_pass [OF b1 m1 n1, THEN conjunct2] u1 by auto
  have b2: "build_steps web_inventory = Inr web_graph3"
    by code_simp
  have n2: "\<not> has_node web_graph3 NO_VPC"
    by code_simp
  have "map_sum id run_unattached (main web_inventory) = Inr [''db2'']"
    by code_simp
  from map_sum_Inr [OF this]
  obtain r2 where m2: "main web_inventory = Inr r2" and u2: "run_unattached r2 = [''db2'']"
    by blast
  have second: "has_node (run_graph r2) NO_VPC \<and> run_orphan r2 \<noteq> None
      \<and> has_edge (run_graph r2) NO_VPC ''db2''"
    using unattached_pass [OF b2 m2 n2, THEN conjunct2] u2 by simp
  show ?thesis using first second m1 m2 u1 u2 by simp
qed




text \<open>
  C8. In used-name detection, a binding without a direct name (absent or empty) whose
  target-group ARN ends, after the last colon, in \<^verbatim>\<open>targetgroup/my-tg/abc123\<close> adds
  exactly \<open>my-tg\<close> to the used-name set; when that last component splits on \<^verbatim>\<open>/\<close>
  into fewer than two pieces, the set is unchanged.
\<close>

theorem used_name_recovered_from_arn:
  assumes "b_loadBalancerName lb = None \<or> b_loadBalancerName lb = Some []"
      and "b_targetGroupArn lb = Some arn"
  shows "(last (split_on CHR '':'' arn) = ''targetgroup/my-tg/abc123''
            \<longrightarrow> used_lb_names_binding used lb = insert ''my-tg'' used)
       \<and> (length (split_on CHR ''/'' (last (split_on CHR '':'' arn))) < 2
            \<longrightarrow> used_lb_names_binding used lb = used)"
proof -
  have arn: "binding_tg_arn lb = arn"
    using assms(2) by (simp add: binding_tg_arn_def)
  have step: "used_lb_names_binding used lb = used_from_arn used arn"
    using assms(1) arn by (auto simp: used_lb_names_binding_def)
  have parts: "split_on CHR ''/'' ''targetgroup/my-tg/abc123'' = [''targetgroup'', ''my-tg'', ''abc123'']"
    by (simp add: split_on_def)
  have "last (split_on CHR '':'' arn) = ''targetgroup/my-tg/abc123'' \<Longrightarrow> arn \<noteq> []"
    by (auto simp: split_on_def)
  then have first: "last (split_on CHR '':'' arn) = ''targetgroup/my-tg/abc123''
      \<Longrightarrow> used_from_arn used arn = insert ''my-tg'' used"
    by (simp add: used_from_arn_def parts)
  have second: "length (split_on CHR ''/'' (last (split_on CHR '':'' arn))) < 2
      \<Longrightarrow> used_from_arn used arn = used"
    by (simp add: used_from_arn_def)
  show ?thesis using step first second by simp
qed

theorem used_name_recovered_from_arn_witness:
  "used_lb_names_binding {} tg_binding = {''my-tg''}
   \<and> used_lb_names_binding {''web''} short_arn_binding = {''web''}"
proof -
  have a: "b_loadBalancerName tg_binding = None \<or> b_loadBalancerName tg_binding = Some []"
    by (simp add: tg_binding_def)
  have b: "b_targetGroupArn tg_binding = Some
      ''arn:aws:elasticloadbalancing:us-east-1:111122223333:targetgroup/my-tg/abc123''"
    by (simp add: tg_binding_def)
  have c: "last (split_on CHR '':''
      ''arn:aws:elasticloadbalancing:us-east-1:111122223333:targetgroup/my-tg/abc123'')
      = ''targetgroup/my-tg/abc123''"
    by (simp add: split_on_def)
  have d: "b_loadBalancerName short_arn_binding = None
           \<or> b_loadBalancerName short_arn_binding = Some []"
    by (simp add: short_arn_binding_def)
  have e: "b_targetGroupArn short_arn_binding = Some ''my-tg''"
    by (simp add: short_arn_binding_def)
  have f: "length (split_on CHR ''/'' (last (split_on CHR '':'' ''my-tg''))) < 2"
    by (simp add: split_on_def)
  show ?thesis
    using used_name_recovered_from_arn [OF a b, of "{}"] c
          used_name_recovered_from_arn [OF d e, of "{''web''}"] f
    by simp
qed

text \<open>
  C9, as amended. In step 3, a database whose identifier no other entry of the
  collection carries, and which has no inbound edge before the step, ends the step
  with one inbound edge from each distinct non-empty subnet id its subnet group lists,
  and no other, whether or not that id is an already-created node: its in-degree is
  the number of listed ids that are nodes plus the number of listed ids that are not.
  With an empty or missing subnet list it has none.
\<close>

theorem database_inbound_edges:
  assumes "dbs_loop G dbs = Inr G'"
      and "db \<in> set dbs"
      and "db_DBInstanceIdentifier db = Some db_id"
      and "\<forall>d \<in> set dbs. db_DBInstanceIdentifier d = Some db_id \<longrightarrow> d = db"
      and "in_degree G db_id = 0"
  shows "set (predecessors G' db_id) = set (listed_subnet_ids (db_subnets db))
       \<and> in_degree G' db_id = card (set (listed_subnet_ids (db_subnets db)))
       \<and> in_degree G' db_id
           = card (set (filter (has_node G) (listed_subnet_ids (db_subnets db))))
             + card (set (filter (\<lambda>i. \<not> has_node G i) (listed_subnet_ids (db_subnets db))))
       \<and> (distinct (listed_subnet_ids (db_subnets db))
            \<longrightarrow> in_degree G' db_id = length (listed_subnet_ids (db_subnets db)))
       \<and> (db_subnets db = [] \<longrightarrow> in_degree G' db_id = 0)"
proof -
  have none: "predecessors G db_id = []"
    using assms(5) by (simp add: in_degree_def)
  have preds: "set (predecessors G' db_id) = set (listed_subnet_ids (db_subnets db))"
    using predecessors_dbs_loop [OF assms(1-4)] none by simp
  have "distinct (predecessors G' db_id)"
    using predecessors_dbs_loop_distinct [OF assms(1)] none by simp
  then have deg: "in_degree G' db_id = card (set (listed_subnet_ids (db_subnets db)))"
    using preds by (simp add: in_degree_def distinct_card [symmetric])
  have split: "in_degree G' db_id
           = card (set (filter (has_node G) (listed_subnet_ids (db_subnets db))))
             + card (set (filter (\<lambda>i. \<not> has_node G i) (listed_subnet_ids (db_subnets db))))"
    using deg card_set_split [of "listed_subnet_ids (db_subnets db)" "has_node G"] by simp
  have len: "distinct (listed_subnet_ids (db_subnets db))
            \<longrightarrow> in_degree G' db_id = length (listed_subnet_ids (db_subnets db))"
    using deg by (simp add: distinct_card)
  have empty: "db_subnets db = [] \<longrightarrow> in_degree G' db_id = 0"
    using deg by simp
  show ?thesis
    by (rule conjI [OF preds conjI [OF deg conjI [OF split conjI [OF len empty]]]])
qed

theorem database_inbound_edges_witness:
  "py_bind (vpcs_loop empty_graph [web_vpc]) (\<lambda>G1. subnets_loop G1 [web_subnet]) = Inr web_graph2
   \<and> dbs_loop web_graph2 [web_db, lone_db] = Inr web_graph3
   \<and> predecessors web_graph3 ''db1'' = [''subnet-1'']
   \<and> in_degree web_graph3 ''db1'' = 1
   \<and> in_degree web_graph3 ''db2'' = 0
   \<and> dbs_loop web_graph2 [mixed_db] = Inr mixed_graph
   \<and> set (predecessors mixed_graph ''db3'') = {''subnet-1'', ''subnet-9''}
   \<and> in_degree mixed_graph ''db3'' = 2"
proof -
  have before: "py_bind (vpcs_loop empty_graph [web_vpc]) (\<lambda>G1. subnets_loop G1 [web_subnet])
      = Inr web_graph2"
    by code_simp
  have run: "dbs_loop web_graph2 [web_db, lone_db] = Inr web_graph3"
    by code_simp
  have p: "predecessors web_graph3 ''db1'' = [''subnet-1'']"
    by code_simp
  have z: "in_degree web_graph2 ''db1'' = 0" "in_degree web_graph2 ''db2'' = 0"
    "in_degree web_graph2 ''db3'' = 0"
    by code_simp+
  have u1: "\<forall>d \<in> set [web_db, lone_db]. db_DBInstanceIdentifier d = Some ''db1'' \<longrightarrow> d = web_db"
    by (simp add: web_db_def lone_db_def)
  have u2: "\<forall>d \<in> set [web_db, lone_db]. db_DBInstanceIdentifier d = Some ''db2'' \<longrightarrow> d = lone_db"
    by (simp add: web_db_def lone_db_def)
  have l1: "listed_subnet_ids (db_subnets web_db) = [''subnet-1'']"
    by (simp add: web_db_def db_subnets_def get_list_def)
  have l2: "db_subnets lone_db = []"
    by (simp add: lone_db_def db_subnets_def)
  have d1: "in_degree web_graph3 ''db1'' = 1"
    using database_inbound_edges [OF run _ _ u1 z(1)] l1 by (simp add: web_db_def)
  have d2: "in_degree web_graph3 ''db2'' = 0"
    using database_inbound_edges [OF run _ _ u2 z(2)] l2 by (simp add: lone_db_def)
  have run3: "dbs_loop web_graph2 [mixed_db] = Inr mixed_graph"
    by code_simp
  have u3: "\<forall>d \<in> set [mixed_db]. db_DBInstanceIdentifier d = Some ''db3'' \<longrightarrow> d = mixed_db"
    by simp
  have l3: "listed_subnet_ids (db_subnets mixed_db) = [''subnet-1'', ''subnet-9'']"
    by (simp add: mixed_db_def db_subnets_def get_list_def)
  have d3: "set (predecessors mixed_graph ''db3'') = {''subnet-1'', ''subnet-9''}
      \<and> in_degree mixed_graph ''db3'' = 2"
    using database_inbound_edges [OF run3 _ _ u3 z(3)] l3 by (simp add: mixed_db_def)
  show ?thesis using before run p d1 d2 run3 d3 by simp
qed

text \<open>
  C9 as stated fails. After steps 1 and 2 the graph \<open>web_graph2\<close> has the node
  \<open>subnet-1\<close> and no node \<open>subnet-9\<close>: the database \<open>db3\<close> lists one valid subnet,
  and step 3 gives it two inbound edges, one of them from \<open>subnet-9\<close>.
\<close>

theorem dangling_subnet_counts_as_edge:
  "py_bind (vpcs_loop empty_graph [web_vpc]) (\<lambda>G1. subnets_loop G1 [web_subnet]) = Inr web_graph2
   \<and> listed_subnet_ids (db_subnets mixed_db) = [''subnet-1'', ''subnet-9'']
   \<and> filter (has_node web_graph2) (listed_subnet_ids (db_subnets mixed_db)) = [''subnet-1'']
   \<and> map_sum id (\<lambda>G. (predecessors G ''db3'', in_degree G ''db3''))
        (dbs_loop web_graph2 [mixed_db]) = Inr ([''subnet-1'', ''subnet-9''], 2)"
  by code_simp

text \<open>
  C10. There is an input on which step 7 aborts the run: a binding without a direct
  name whose target-group reference is not empty and holds no \<^verbatim>\<open>/\<close>. Step 5 skips
  the binding; on line 93 \<^verbatim>\<open>tg_arn.split("/")\<close> has one element, the index
  \<^verbatim>\<open>[-2]\<close> raises \<^verbatim>\<open>IndexError\<close>, and \<^verbatim>\<open>main\<close> ends with it.
\<close>

theorem short_arn_aborts_run:
  "b_loadBalancerName short_arn_binding = None
   \<and> b_targetGroupArn short_arn_binding = Some ''my-tg''
   \<and> split_on CHR ''/'' ''my-tg'' = [''my-tg'']
   \<and> used_lb_names short_arn_inventory = {}
   \<and> resolve_lb_name short_arn_binding = Inl IndexError
   \<and> main short_arn_inventory = Inl IndexError"
  by code_simp

end
